theory Spec2Isabelle
  imports Main "HOL-Library.Sublist" "HOL-Library.Product_Lexorder"
begin

section \<open>The per-worktree operation lock (utils/operation\_lock.py)\<close>

text \<open>
  A Python \<open>str\<close> is modelled as a \<open>string\<close>; a \<open>char\<close> stands for one code point
  below 256.  \<open>datetime.now()\<close> and \<open>str(uuid.uuid4())\<close> read the environment: the value
  each call obtains is an explicit argument of the function that makes the call.
\<close>

type_synonym datetime = nat

text \<open>
  \<open>threading.Lock\<close>: \<open>acquire(blocking=False)\<close> is a test-and-set that never waits,
  \<open>release()\<close> raises \<open>RuntimeError\<close> on a lock that is not held.
\<close>

datatype Lock = Unlocked | Locked

datatype RuntimeError = RuntimeError

fun Lock_acquire_nonblocking :: "Lock \<Rightarrow> bool \<times> Lock" where
  "Lock_acquire_nonblocking Unlocked = (True, Locked)"
| "Lock_acquire_nonblocking Locked = (False, Locked)"

fun Lock_release :: "Lock \<Rightarrow> RuntimeError + Lock" where
  "Lock_release Locked = Inr Unlocked"
| "Lock_release Unlocked = Inl RuntimeError"

fun Lock_locked :: "Lock \<Rightarrow> bool" where
  "Lock_locked Locked = True"
| "Lock_locked Unlocked = False"

record WorktreeLock =
  lock :: Lock
  current_operation :: "string option"
  operation_started_at :: "datetime option"
  last_completed_operation :: "string option"
  last_completed_at :: "datetime option"
  last_completion_id :: "string option"

text \<open>\<open>WorktreeLock.__init__\<close>\<close>

definition WorktreeLock_init :: WorktreeLock where
  "WorktreeLock_init =
     \<lparr>lock = Unlocked, current_operation = None, operation_started_at = None,
      last_completed_operation = None, last_completed_at = None, last_completion_id = None\<rparr>"

text \<open>The module-level dictionary \<open>_worktree_locks\<close>.\<close>

type_synonym worktree_locks = "string \<rightharpoonup> WorktreeLock"

text \<open>
  \<open>_get_worktree_lock\<close> returns the lock object of the path, creating it on first
  reference.  The object is shared by reference in the source; here every function that
  mutates it stores it back under its key.
\<close>

definition get_worktree_lock :: "string \<Rightarrow> worktree_locks \<Rightarrow> WorktreeLock \<times> worktree_locks" where
  "get_worktree_lock worktree_path locks =
     (case locks worktree_path of
        None \<Rightarrow> (WorktreeLock_init, locks(worktree_path \<mapsto> WorktreeLock_init))
      | Some wt_lock \<Rightarrow> (wt_lock, locks))"

record lock_status =
  st_is_locked :: bool
  st_operation :: "string option"
  st_started_at :: "datetime option"
  st_last_completed_operation :: "string option"
  st_last_completed_at :: "datetime option"
  st_last_completion_id :: "string option"

definition get_lock_status :: "string \<Rightarrow> worktree_locks \<Rightarrow> lock_status \<times> worktree_locks" where
  "get_lock_status worktree_path locks =
     (let (wt_lock, locks1) = get_worktree_lock worktree_path locks;
          is_locked = Lock_locked (lock wt_lock)
      in (\<lparr>st_is_locked = is_locked,
           st_operation = (if is_locked then current_operation wt_lock else None),
           st_started_at = (if is_locked then operation_started_at wt_lock else None),
           st_last_completed_operation = last_completed_operation wt_lock,
           st_last_completed_at = last_completed_at wt_lock,
           st_last_completion_id = last_completion_id wt_lock\<rparr>, locks1))"

text \<open>\<open>acquire_lock\<close>; \<open>now\<close> is the value of \<open>datetime.now()\<close> read on success.\<close>

definition acquire_lock :: "string \<Rightarrow> string \<Rightarrow> datetime \<Rightarrow> worktree_locks \<Rightarrow> bool \<times> worktree_locks" where
  "acquire_lock worktree_path operation_name now locks =
     (let (wt_lock, locks1) = get_worktree_lock worktree_path locks;
          (acquired, l) = Lock_acquire_nonblocking (lock wt_lock)
      in if acquired
         then (True, locks1(worktree_path \<mapsto>
                 wt_lock\<lparr>lock := l, current_operation := Some operation_name,
                         operation_started_at := Some now\<rparr>))
         else (False, locks1))"

text \<open>
  \<open>release_lock\<close>; \<open>now\<close> and \<open>uuid4\<close> are the values of \<open>datetime.now()\<close> and
  \<open>str(uuid.uuid4())\<close> read by the call.  The completion record is written before
  \<open>lock.release()\<close> is tried, and the \<open>RuntimeError\<close> of releasing a lock that is not
  held is swallowed.  The source's \<open>success\<close> argument is never read and is left out.
\<close>

definition release_lock :: "string \<Rightarrow> datetime \<Rightarrow> string \<Rightarrow> worktree_locks \<Rightarrow> worktree_locks" where
  "release_lock worktree_path now uuid4 locks =
     (let (wt_lock, locks1) = get_worktree_lock worktree_path locks;
          wt1 = wt_lock\<lparr>last_completed_operation := current_operation wt_lock,
                        last_completed_at := Some now,
                        last_completion_id := Some uuid4\<rparr>;
          wt2 = wt1\<lparr>current_operation := None, operation_started_at := None\<rparr>
      in case Lock_release (lock wt2) of
           Inr l \<Rightarrow> locks1(worktree_path \<mapsto> wt2\<lparr>lock := l\<rparr>)
         | Inl RuntimeError \<Rightarrow> locks1(worktree_path \<mapsto> wt2))"

definition is_locked :: "string \<Rightarrow> worktree_locks \<Rightarrow> bool \<times> worktree_locks" where
  "is_locked worktree_path locks =
     (let (wt_lock, locks1) = get_worktree_lock worktree_path locks
      in (Lock_locked (lock wt_lock), locks1))"

text \<open>
  A caller of the module makes one of its four calls; a history of the registry is a list
  of calls, run in order, each call one step (the mutex of \<open>threading.Lock\<close> makes the
  test-and-set of \<open>acquire\<close> one step).
\<close>

datatype lock_call =
    Acquire string string datetime
  | Release string datetime string
  | GetStatus string
  | IsLocked string

datatype call_result = RBool bool | RStatus lock_status | RNone

fun run_call :: "lock_call \<Rightarrow> worktree_locks \<Rightarrow> call_result \<times> worktree_locks" where
  "run_call (Acquire p n t) locks = (let (b, locks') = acquire_lock p n t locks in (RBool b, locks'))"
| "run_call (Release p t u) locks = (RNone, release_lock p t u locks)"
| "run_call (GetStatus p) locks = (let (s, locks') = get_lock_status p locks in (RStatus s, locks'))"
| "run_call (IsLocked p) locks = (let (b, locks') = is_locked p locks in (RBool b, locks'))"

fun run_calls :: "lock_call list \<Rightarrow> worktree_locks \<Rightarrow> (lock_call \<times> call_result) list \<times> worktree_locks" where
  "run_calls [] locks = ([], locks)"
| "run_calls (c # cs) locks =
     (let (r, locks1) = run_call c locks;
          (rs, locks2) = run_calls cs locks1
      in ((c, r) # rs, locks2))"

fun is_release_of :: "string \<Rightarrow> lock_call \<Rightarrow> bool" where
  "is_release_of p (Release q t u) = (q = p)"
| "is_release_of p _ = False"

fun won :: "string \<Rightarrow> lock_call \<times> call_result \<Rightarrow> bool" where
  "won p (Acquire q n t, RBool b) = (q = p \<and> b)"
| "won p _ = False"



subsection \<open>Mutual exclusion and release\<close>

lemma is_locked_iff: "fst (is_locked p locks) = (\<exists>wt. locks p = Some wt \<and> lock wt = Locked)"
  by (cases "locks p") (auto simp: is_locked_def get_worktree_lock_def WorktreeLock_init_def
      elim: Lock_locked.elims)

lemma acquire_lock_result: "fst (acquire_lock p n t locks) = (\<not> fst (is_locked p locks))"
  unfolding is_locked_iff
  by (cases "locks p") (auto simp: acquire_lock_def get_worktree_lock_def WorktreeLock_init_def
      split: prod.splits elim: Lock_acquire_nonblocking.elims)

lemma acquire_lock_holds:
  "fst (is_locked p (snd (acquire_lock p n t locks)))"
  unfolding is_locked_iff
  by (cases "locks p") (auto simp: acquire_lock_def get_worktree_lock_def WorktreeLock_init_def
      split: prod.splits elim: Lock_acquire_nonblocking.elims)

lemma run_call_keeps_lock:
  "fst (is_locked p locks) \<Longrightarrow> \<not> is_release_of p c \<Longrightarrow>
     fst (is_locked p (snd (run_call c locks))) \<and> \<not> won p (c, fst (run_call c locks))"
  unfolding is_locked_iff
  apply (cases c)
     apply (auto simp: acquire_lock_def release_lock_def get_lock_status_def is_locked_def get_worktree_lock_def WorktreeLock_init_def Let_def
      split: prod.splits option.splits sum.splits RuntimeError.splits elim: Lock_acquire_nonblocking.elims)
  done

lemma run_calls_locked_no_winner:
  "fst (is_locked p locks) \<Longrightarrow> \<not> list_ex (is_release_of p) cs \<Longrightarrow>
     \<not> list_ex (won p) (fst (run_calls cs locks))"
proof (induction cs arbitrary: locks)
  case Nil
  then show ?case by simp
next
  case (Cons c cs)
  from Cons.prems have nr: "\<not> is_release_of p c" and nrs: "\<not> list_ex (is_release_of p) cs"
    by simp_all
  from run_call_keeps_lock [OF Cons.prems(1) nr]
  have held: "fst (is_locked p (snd (run_call c locks)))"
    and lost: "\<not> won p (c, fst (run_call c locks))" by simp_all
  from Cons.IH [OF held nrs] lost show ?case
    by (simp add: split_beta)
qed

lemma won_acquire_locks:
  "won p (c, fst (run_call c locks)) \<Longrightarrow> fst (is_locked p (snd (run_call c locks)))"
  by (cases c) (auto simp: split_beta acquire_lock_holds)

lemma run_calls_at_most_one_winner:
  "\<not> list_ex (is_release_of p) cs \<Longrightarrow> length (filter (won p) (fst (run_calls cs locks))) \<le> 1"
proof (induction cs arbitrary: locks)
  case Nil
  then show ?case by simp
next
  case (Cons c cs)
  from Cons.prems have nrs: "\<not> list_ex (is_release_of p) cs" by simp
  show ?case
  proof (cases "won p (c, fst (run_call c locks))")
    case True
    from run_calls_locked_no_winner [OF won_acquire_locks [OF True] nrs]
    have "filter (won p) (fst (run_calls cs (snd (run_call c locks)))) = []"
      by (simp add: list_ex_iff filter_empty_conv)
    with True show ?thesis by (simp add: split_beta)
  next
    case False
    with Cons.IH [OF nrs, of "snd (run_call c locks)"] show ?thesis
      by (simp add: split_beta)
  qed
qed

lemma release_lock_lookup:
  "release_lock p t u locks p =
     Some ((fst (get_worktree_lock p locks))
       \<lparr>lock := Unlocked, current_operation := None, operation_started_at := None,
        last_completed_operation := current_operation (fst (get_worktree_lock p locks)),
        last_completed_at := Some t, last_completion_id := Some u\<rparr>)"
  by (cases "locks p"; cases "lock (fst (get_worktree_lock p locks))")
     (auto simp: release_lock_def get_worktree_lock_def WorktreeLock_init_def)



text \<open>
  Claim C1.  \<open>acquire_lock\<close> returns true exactly when the lock of the path is free, and
  then the lock is busy with the given label and the time read; a failed acquire changes
  nothing.  After a successful acquire, in every history that has no release of the path,
  no further acquire of the path succeeds; and in any history without a release of the
  path, from any state, at most one acquire of the path succeeds, so two callers never
  hold the lock of one path together.
\<close>

theorem acquire_lock_mutual_exclusion:
  "(fst (acquire_lock p n t locks) \<longleftrightarrow> \<not> fst (is_locked p locks))
   \<and> (fst (acquire_lock p n t locks) \<longrightarrow>
        (let wt = fst (get_worktree_lock p locks);
             wt' = fst (get_worktree_lock p (snd (acquire_lock p n t locks)))
         in wt' = wt\<lparr>lock := Locked, current_operation := Some n, operation_started_at := Some t\<rparr>))
   \<and> (\<not> fst (acquire_lock p n t locks) \<longrightarrow>
        fst (get_worktree_lock p (snd (acquire_lock p n t locks))) = fst (get_worktree_lock p locks))
   \<and> (fst (acquire_lock p n t locks) \<and> \<not> list_ex (is_release_of p) cs \<longrightarrow>
        \<not> list_ex (won p) (fst (run_calls cs (snd (acquire_lock p n t locks)))))
   \<and> (\<not> list_ex (is_release_of p) cs \<longrightarrow>
        length (filter (won p) (fst (run_calls cs locks))) \<le> 1)"
proof (intro conjI impI)
  show "fst (acquire_lock p n t locks) \<longleftrightarrow> \<not> fst (is_locked p locks)"
    by (rule acquire_lock_result)
next
  assume "fst (acquire_lock p n t locks)"
  then show "let wt = fst (get_worktree_lock p locks);
                 wt' = fst (get_worktree_lock p (snd (acquire_lock p n t locks)))
             in wt' = wt\<lparr>lock := Locked, current_operation := Some n, operation_started_at := Some t\<rparr>"
    by (cases "locks p")
       (auto simp: acquire_lock_def get_worktree_lock_def WorktreeLock_init_def
             split: prod.splits elim: Lock_acquire_nonblocking.elims)
next
  assume "\<not> fst (acquire_lock p n t locks)"
  then show "fst (get_worktree_lock p (snd (acquire_lock p n t locks))) = fst (get_worktree_lock p locks)"
    by (cases "locks p")
       (auto simp: acquire_lock_def get_worktree_lock_def WorktreeLock_init_def
             split: prod.splits elim: Lock_acquire_nonblocking.elims)
next
  assume "fst (acquire_lock p n t locks) \<and> \<not> list_ex (is_release_of p) cs"
  then show "\<not> list_ex (won p) (fst (run_calls cs (snd (acquire_lock p n t locks))))"
    using run_calls_locked_no_winner [OF acquire_lock_holds] by blast
next
  assume "\<not> list_ex (is_release_of p) cs"
  then show "length (filter (won p) (fst (run_calls cs locks))) \<le> 1"
    by (rule run_calls_at_most_one_winner)
qed

theorem acquire_lock_mutual_exclusion_witness:
  "fst (acquire_lock ''/repo/wt1'' ''Running all models'' 7 Map.empty)
   \<and> \<not> list_ex (is_release_of ''/repo/wt1'')
         [Acquire ''/repo/wt1'' ''Testing all models'' 8, GetStatus ''/repo/wt1'',
          Acquire ''/repo/wt2'' ''Seeding all seeds'' 9, Release ''/repo/wt2'' 10 ''id-1'',
          Acquire ''/repo/wt1'' ''Compiling entire project'' 11]
   \<and> \<not> list_ex (won ''/repo/wt1'')
         (fst (run_calls
           [Acquire ''/repo/wt1'' ''Testing all models'' 8, GetStatus ''/repo/wt1'',
            Acquire ''/repo/wt2'' ''Seeding all seeds'' 9, Release ''/repo/wt2'' 10 ''id-1'',
            Acquire ''/repo/wt1'' ''Compiling entire project'' 11]
           (snd (acquire_lock ''/repo/wt1'' ''Running all models'' 7 Map.empty))))
   \<and> fst (get_worktree_lock ''/repo/wt1''
           (snd (acquire_lock ''/repo/wt1'' ''Running all models'' 7 Map.empty)))
       = WorktreeLock_init\<lparr>lock := Locked, current_operation := Some ''Running all models'',
                            operation_started_at := Some 7\<rparr>"
  using acquire_lock_mutual_exclusion [of "''/repo/wt1''" "''Running all models''" 7 Map.empty
      "[Acquire ''/repo/wt1'' ''Testing all models'' 8, GetStatus ''/repo/wt1'',
        Acquire ''/repo/wt2'' ''Seeding all seeds'' 9, Release ''/repo/wt2'' 10 ''id-1'',
        Acquire ''/repo/wt1'' ''Compiling entire project'' 11]"]
  by (simp add: acquire_lock_def get_worktree_lock_def WorktreeLock_init_def is_locked_def
      release_lock_def get_lock_status_def)



section \<open>Background dbt commands (routes/dbt\_routes.py)\<close>

text \<open>
  What a call into the surrounding system can raise, seen from the handlers of
  \<open>run_dbt_command_task\<close>: \<open>subprocess.TimeoutExpired\<close>, \<open>FileNotFoundError\<close>, any
  other subclass of \<open>Exception\<close>, and an exception outside \<open>Exception\<close>
  (\<open>KeyboardInterrupt\<close>, \<open>SystemExit\<close>).  The string is \<open>str(e)\<close>.
\<close>

datatype py_exception =
    TimeoutExpired string
  | FileNotFoundError string
  | OtherException string
  | BaseExceptionOnly string

fun exception_str :: "py_exception \<Rightarrow> string" where
  "exception_str (TimeoutExpired m) = m"
| "exception_str (FileNotFoundError m) = m"
| "exception_str (OtherException m) = m"
| "exception_str (BaseExceptionOnly m) = m"

text \<open>\<open>CommandResult\<close> of utils/subprocess\_utils.py\<close>

record CommandResult =
  returncode :: int
  stdout :: string
  stderr :: string

definition success :: "CommandResult \<Rightarrow> bool" where
  "success r = (returncode r = 0)"

definition error :: "CommandResult \<Rightarrow> string" where
  "error r = (if stderr r \<noteq> [] then stderr r else stdout r)"

text \<open>
  An entry of the dictionary \<open>dbt_command_status\<close>; a key the source leaves out of the
  entry is \<open>None\<close>.
\<close>

record job_status =
  js_status :: string
  js_command :: string
  js_selector :: string
  js_started_at :: "datetime option"
  js_completed_at :: "datetime option"
  js_output :: "string option"
  js_error :: "string option"

text \<open>
  The collaborators of the task and the two clock readings it makes; \<open>'v\<close> is the type of
  the cookie's variables, \<open>'e\<close> of a process environment.
\<close>

record ('v, 'e) task_ext =
  get_venv_dbt_path :: "string \<Rightarrow> py_exception + string"
  get_dbt_env :: "string \<Rightarrow> 'v \<Rightarrow> py_exception + 'e"
  run_command :: "string list \<Rightarrow> string \<Rightarrow> nat \<Rightarrow> 'e \<Rightarrow> py_exception + CommandResult"
  now_started :: datetime
  now_completed :: datetime

text \<open>
  The task acts on the shared state through two kinds of statements: an assignment to
  \<open>dbt_command_status[path_str]\<close> and a call of \<open>release_lock(path_str)\<close>.  The model of
  the task is the list of these statements in the order the task executes them, together
  with the exception that leaves the task, if any.
\<close>

datatype task_effect =
    SetStatus string job_status
  | CallReleaseLock string

text \<open>
  The inner \<open>try\<close>: the project's own dbt, or the global one when
  \<open>get_venv_dbt_path\<close> raises \<open>FileNotFoundError\<close>; any other exception passes on.
\<close>

definition dbt_executable_of :: "('v, 'e) task_ext \<Rightarrow> string \<Rightarrow> py_exception + string" where
  "dbt_executable_of ext path =
     (case get_venv_dbt_path ext path of
        Inr p \<Rightarrow> Inr p
      | Inl (FileNotFoundError m) \<Rightarrow> Inr ''dbt''
      | Inl e \<Rightarrow> Inl e)"

definition dbt_cmd :: "string \<Rightarrow> string \<Rightarrow> string \<Rightarrow> string \<Rightarrow> string \<Rightarrow> bool \<Rightarrow> string list" where
  "dbt_cmd dbt_executable command path selector target full_refresh =
     [dbt_executable, command, ''--project-dir'', path, ''--profiles-dir'', path]
     @ (if selector \<noteq> [] then [''--select'', selector] else [])
     @ (if target \<noteq> [] then [''--target'', target] else [])
     @ (if full_refresh \<and> (command = ''run'' \<or> command = ''seed'') then [''--full-refresh''] else [])"

text \<open>The body of the \<open>try\<close>: what it did, and the exception that ended it, if any.\<close>

definition task_try_body ::
  "('v, 'e) task_ext \<Rightarrow> string \<Rightarrow> string \<Rightarrow> string \<Rightarrow> string \<Rightarrow> bool \<Rightarrow> 'v
     \<Rightarrow> task_effect list \<times> py_exception option" where
  "task_try_body ext path command selector target full_refresh env_vars =
     (let path_str = path;
          started = [SetStatus path_str
             \<lparr>js_status = ''running'', js_command = command, js_selector = selector,
              js_started_at = Some (now_started ext), js_completed_at = None,
              js_output = None, js_error = None\<rparr>]
      in case dbt_executable_of ext path of
           Inl e \<Rightarrow> (started, Some e)
         | Inr dbt_executable \<Rightarrow>
             (let cmd = dbt_cmd dbt_executable command path selector target full_refresh
              in case get_dbt_env ext path env_vars of
                   Inl e \<Rightarrow> (started, Some e)
                 | Inr env \<Rightarrow>
                     (case run_command ext cmd path 300 env of
                        Inl e \<Rightarrow> (started, Some e)
                      | Inr result \<Rightarrow>
                          if success result
                          then (started @ [SetStatus path_str
                                  \<lparr>js_status = ''success'', js_command = command, js_selector = selector,
                                   js_started_at = None, js_completed_at = Some (now_completed ext),
                                   js_output = Some (stdout result), js_error = None\<rparr>], None)
                          else (started @ [SetStatus path_str
                                  \<lparr>js_status = ''failed'', js_command = command, js_selector = selector,
                                   js_started_at = None, js_completed_at = Some (now_completed ext),
                                   js_output = None, js_error = Some (error result)\<rparr>], None))))"

text \<open>
  The \<open>except\<close> clauses: \<open>TimeoutExpired\<close> first, then \<open>Exception\<close>; an exception
  outside \<open>Exception\<close> matches neither and leaves the task.
\<close>

fun task_except :: "datetime \<Rightarrow> string \<Rightarrow> string \<Rightarrow> string \<Rightarrow> py_exception
     \<Rightarrow> task_effect list \<times> py_exception option" where
  "task_except now path_str command selector (TimeoutExpired m) =
     ([SetStatus path_str
         \<lparr>js_status = ''failed'', js_command = command, js_selector = selector,
          js_started_at = None, js_completed_at = Some now,
          js_output = None, js_error = Some (''dbt '' @ command @ '' timed out after 5 minutes'')\<rparr>],
      None)"
| "task_except now path_str command selector (BaseExceptionOnly m) = ([], Some (BaseExceptionOnly m))"
| "task_except now path_str command selector e =
     ([SetStatus path_str
         \<lparr>js_status = ''failed'', js_command = command, js_selector = selector,
          js_started_at = None, js_completed_at = Some now,
          js_output = None, js_error = Some (exception_str e)\<rparr>],
      None)"

text \<open>
  \<open>run_dbt_command_task\<close>: the \<open>try\<close> body, the \<open>except\<close> clause that matches what it
  raised, and the \<open>finally\<close> clause, which runs on every way out.
\<close>

definition run_dbt_command_task ::
  "('v, 'e) task_ext \<Rightarrow> string \<Rightarrow> string \<Rightarrow> string \<Rightarrow> string \<Rightarrow> bool \<Rightarrow> 'v
     \<Rightarrow> task_effect list \<times> py_exception option" where
  "run_dbt_command_task ext path command selector target full_refresh env_vars =
     (let path_str = path;
          (performed, raised) = task_try_body ext path command selector target full_refresh env_vars;
          (handled, leaving) =
             (case raised of
                None \<Rightarrow> ([], None)
              | Some e \<Rightarrow> task_except (now_completed ext) path_str command selector e)
      in (performed @ handled @ [CallReleaseLock path_str], leaving))"

text \<open>The shared state of the server, and the effect of the task's statements on it.\<close>

record server_state =
  worktree_locks :: worktree_locks
  dbt_command_status :: "string \<rightharpoonup> job_status"

fun apply_effect :: "datetime \<Rightarrow> string \<Rightarrow> task_effect \<Rightarrow> server_state \<Rightarrow> server_state" where
  "apply_effect now uuid4 (SetStatus p js) s = s\<lparr>dbt_command_status := (dbt_command_status s)(p \<mapsto> js)\<rparr>"
| "apply_effect now uuid4 (CallReleaseLock p) s = s\<lparr>worktree_locks := release_lock p now uuid4 (worktree_locks s)\<rparr>"

fun apply_effects :: "datetime \<Rightarrow> string \<Rightarrow> task_effect list \<Rightarrow> server_state \<Rightarrow> server_state" where
  "apply_effects now uuid4 [] s = s"
| "apply_effects now uuid4 (e # es) s = apply_effects now uuid4 es (apply_effect now uuid4 e s)"

fun is_CallReleaseLock :: "task_effect \<Rightarrow> bool" where
  "is_CallReleaseLock (CallReleaseLock p) = True"
| "is_CallReleaseLock (SetStatus p js) = False"

lemma task_try_body_no_release:
  "filter is_CallReleaseLock (fst (task_try_body ext path command selector target full_refresh env_vars)) = []"
  unfolding task_try_body_def Let_def
  by (simp split: sum.split)

lemma task_except_no_release:
  "filter is_CallReleaseLock (fst (task_except now p command selector e)) = []"
  by (cases e) simp_all

lemma apply_effects_append:
  "apply_effects now u (xs @ ys) s = apply_effects now u ys (apply_effects now u xs s)"
  by (induction xs arbitrary: s) simp_all

lemma apply_effects_no_release:
  "filter is_CallReleaseLock es = [] \<Longrightarrow>
     worktree_locks (apply_effects now u es s) = worktree_locks s"
proof (induction es arbitrary: s)
  case Nil
  then show ?case by simp
next
  case (Cons e es)
  then show ?case by (cases e) (simp_all split: if_splits)
qed

text \<open>
  Claim C2.  Whatever the collaborators do (the command succeeds, returns a non-zero code,
  raises \<open>TimeoutExpired\<close>, raises any other exception, inside or outside \<open>Exception\<close>,
  from any of the three calls), the statements the task executes contain exactly one call
  of \<open>release_lock\<close>, it is for the task's own path, and it is the last statement.  On
  the lock registry the whole task therefore acts as one \<open>release_lock\<close> of its path, and
  the lock of the path is free when the task has finished.
\<close>

theorem run_dbt_command_task_releases_once:
  "filter is_CallReleaseLock
      (fst (run_dbt_command_task ext path command selector target full_refresh env_vars))
     = [CallReleaseLock path]
   \<and> last (fst (run_dbt_command_task ext path command selector target full_refresh env_vars))
     = CallReleaseLock path
   \<and> worktree_locks
         (apply_effects now uuid4
            (fst (run_dbt_command_task ext path command selector target full_refresh env_vars)) s)
     = release_lock path now uuid4 (worktree_locks s)
   \<and> \<not> fst (is_locked path (worktree_locks
          (apply_effects now uuid4
             (fst (run_dbt_command_task ext path command selector target full_refresh env_vars)) s)))"
proof -
  obtain performed raised where b:
    "task_try_body ext path command selector target full_refresh env_vars = (performed, raised)"
    by (cases "task_try_body ext path command selector target full_refresh env_vars")
  obtain handled leaving where h:
    "(case raised of None \<Rightarrow> ([], None)
      | Some e \<Rightarrow> task_except (now_completed ext) path command selector e) = (handled, leaving)"
    by (cases "(case raised of None \<Rightarrow> ([], None)
      | Some e \<Rightarrow> task_except (now_completed ext) path command selector e)")
  have r: "fst (run_dbt_command_task ext path command selector target full_refresh env_vars)
      = performed @ handled @ [CallReleaseLock path]"
    by (simp add: run_dbt_command_task_def b h)
  from task_try_body_no_release [of ext path command selector target full_refresh env_vars] b
  have p: "filter is_CallReleaseLock performed = []" by simp
  have q: "filter is_CallReleaseLock handled = []"
  proof (cases raised)
    case None
    with h show ?thesis by simp
  next
    case (Some e)
    with h task_except_no_release [of "now_completed ext" path command selector e]
    show ?thesis by simp
  qed
  have free: "\<And>s'. \<not> fst (is_locked path (release_lock path now uuid4 s'))"
    by (simp add: is_locked_iff release_lock_lookup)
  show ?thesis
    unfolding r
    by (simp add: p q apply_effects_append free apply_effects_no_release)
qed

subsection \<open>The endpoint \<open>/api/dbt-command\<close>\<close>

datatype HTTPException = HTTPException (status_code: nat) (detail: string)

record DbtCommandRequest =
  rq_path :: string
  rq_command :: string
  rq_selector :: string
  rq_target :: string
  rq_full_refresh :: bool

text \<open>
  What the handler consults outside the lock module: the file system
  (\<open>Path(p).expanduser().resolve()\<close> as a string, \<open>Path.exists\<close>), \<open>str.lower().strip()\<close>,
  the two validators of utils/input\_validation.py, which return the cleaned text or raise
  an \<open>HTTPException\<close>, and the cookie reader.  \<open>'q\<close> is the type of the HTTP request
  object, \<open>'v\<close> of the cookie's variables.
\<close>

record ('q, 'v) route_ext =
  resolve :: "string \<Rightarrow> string"
  path_exists :: "string \<Rightarrow> bool"
  lower_strip :: "string \<Rightarrow> string"
  validate_dbt_selector :: "string \<Rightarrow> string \<Rightarrow> HTTPException + string"
  validate_dbt_target :: "string \<Rightarrow> HTTPException + string"
  get_env_vars_from_cookie :: "'q \<Rightarrow> string \<Rightarrow> 'v"

text \<open>
  \<open>VALID_DBT_COMMANDS\<close> is a set in the source; the order in which \<open>', '.join\<close> walks it
  is not fixed by Python, the list gives one order.
\<close>

definition VALID_DBT_COMMANDS :: "string list" where
  "VALID_DBT_COMMANDS = [''compile'', ''run'', ''test'', ''seed'']"

fun str_join :: "string \<Rightarrow> string list \<Rightarrow> string" where
  "str_join sep [] = []"
| "str_join sep [x] = x"
| "str_join sep (x # y # ys) = x @ sep @ str_join sep (y # ys)"

text \<open>How an f-string prints an optional label: \<open>None\<close> prints as the word.\<close>

fun format_optional :: "string option \<Rightarrow> string" where
  "format_optional None = ''None''"
| "format_optional (Some s) = s"

definition operation_name_of :: "string \<Rightarrow> string \<Rightarrow> bool \<Rightarrow> string" where
  "operation_name_of command selector full_refresh =
     (let full_refresh_suffix =
            (if full_refresh \<and> (command = ''run'' \<or> command = ''seed'') then '' (full refresh)'' else [])
      in if command = ''compile''
         then (if selector \<noteq> [] then ''Compiling: '' @ selector else ''Compiling entire project'')
         else if command = ''run''
         then (if selector \<noteq> [] then ''Running: '' @ selector else ''Running all models'') @ full_refresh_suffix
         else if command = ''test''
         then (if selector \<noteq> [] then ''Testing: '' @ selector else ''Testing all models'')
         else if command = ''seed''
         then (if selector \<noteq> [] then ''Seeding: '' @ selector else ''Seeding all seeds'') @ full_refresh_suffix
         else (if selector \<noteq> [] then ''dbt '' @ command @ '': '' @ selector else ''dbt '' @ command))"

record started_response =
  sr_status :: string
  sr_command :: string
  sr_selector :: string
  sr_message :: string

text \<open>The arguments of the call \<open>background_tasks.add_task(run_dbt_command_task, ...)\<close>.\<close>

record 'v background_task =
  bt_path :: string
  bt_command :: string
  bt_selector :: string
  bt_target :: string
  bt_full_refresh :: bool
  bt_env_vars :: 'v

text \<open>
  \<open>dbt_command\<close>; \<open>now\<close> is the clock value \<open>acquire_lock\<close> reads.  The result is the
  \<open>HTTPException\<close> raised, or the response returned together with the task scheduled.
\<close>

definition dbt_command ::
  "('q, 'v) route_ext \<Rightarrow> datetime \<Rightarrow> DbtCommandRequest \<Rightarrow> 'q \<Rightarrow> worktree_locks
     \<Rightarrow> (HTTPException + started_response \<times> 'v background_task) \<times> worktree_locks" where
  "dbt_command ext now action request locks =
     (let path = resolve ext (rq_path action)
      in if \<not> path_exists ext path
         then (Inl (HTTPException 404 ''Project path does not exist''), locks)
         else
           let command = lower_strip ext (rq_command action)
           in if command \<notin> set VALID_DBT_COMMANDS
              then (Inl (HTTPException 400
                      (''Invalid command: '' @ command @ ''. Must be one of: ''
                         @ str_join '', '' VALID_DBT_COMMANDS)), locks)
              else
                case validate_dbt_selector ext (rq_selector action) ''selector'' of
                  Inl e \<Rightarrow> (Inl e, locks)
                | Inr selector \<Rightarrow>
                   (case validate_dbt_target ext (rq_target action) of
                      Inl e \<Rightarrow> (Inl e, locks)
                    | Inr target \<Rightarrow>
                       (let path_str = path;
                            (status, locks1) = get_lock_status path_str locks
                        in if st_is_locked status
                           then (Inl (HTTPException 409
                                   (''Another operation is already running: ''
                                      @ format_optional (st_operation status))), locks1)
                           else
                             let operation_name =
                                   operation_name_of command selector (rq_full_refresh action);
                                 (acquired, locks2) = acquire_lock path_str operation_name now locks1
                             in if \<not> acquired
                                then (let (status2, locks3) = get_lock_status path_str locks2
                                      in (Inl (HTTPException 409
                                            (''Another operation is already running: ''
                                               @ format_optional (st_operation status2))), locks3))
                                else
                                  let env_vars = get_env_vars_from_cookie ext request path
                                  in (Inr (\<lparr>sr_status = ''started'', sr_command = command,
                                             sr_selector = selector, sr_message = operation_name\<rparr>,
                                           \<lparr>bt_path = path, bt_command = command, bt_selector = selector,
                                            bt_target = target, bt_full_refresh = rq_full_refresh action,
                                            bt_env_vars = env_vars\<rparr>), locks2))))"

text \<open>
  \<open>release_lock\<close> as the worker thread of a background task executes it: first the
  assignments that record the completion and clear the label, then \<open>lock.release()\<close>.
  Another thread can run between any two statements; the two parts below are the split
  that matters for a reader of the status.
\<close>

definition release_lock_record :: "string \<Rightarrow> datetime \<Rightarrow> string \<Rightarrow> worktree_locks \<Rightarrow> worktree_locks" where
  "release_lock_record worktree_path now uuid4 locks =
     (let (wt_lock, locks1) = get_worktree_lock worktree_path locks
      in locks1(worktree_path \<mapsto>
           wt_lock\<lparr>last_completed_operation := current_operation wt_lock,
                   last_completed_at := Some now,
                   last_completion_id := Some uuid4,
                   current_operation := None,
                   operation_started_at := None\<rparr>))"

definition release_lock_unlock :: "string \<Rightarrow> worktree_locks \<Rightarrow> worktree_locks" where
  "release_lock_unlock worktree_path locks =
     (case locks worktree_path of
        None \<Rightarrow> locks
      | Some wt_lock \<Rightarrow>
          (case Lock_release (lock wt_lock) of
             Inr l \<Rightarrow> locks(worktree_path \<mapsto> wt_lock\<lparr>lock := l\<rparr>)
           | Inl RuntimeError \<Rightarrow> locks))"

text \<open>
  What happens at the server during a burst of requests.  The handler is an \<open>async def\<close>
  with no \<open>await\<close> in its body, so the event loop runs each call of it to its end before
  it starts the next: the requests are handled one after another, in some order.  The
  background tasks are plain functions, run in worker threads beside the event loop: a
  task that finishes executes the two parts of its \<open>release_lock\<close> at any moment between
  or after the requests.  \<open>run_events\<close> runs such a sequence and returns the answers to
  the requests, in order.
\<close>

datatype 'q server_event =
    Submit datetime DbtCommandRequest 'q
  | TaskRecordsCompletion string datetime string
  | TaskUnlocks string

fun run_events ::
  "('q, 'v) route_ext \<Rightarrow> 'q server_event list \<Rightarrow> worktree_locks
     \<Rightarrow> (HTTPException + started_response \<times> 'v background_task) list \<times> worktree_locks" where
  "run_events ext [] locks = ([], locks)"
| "run_events ext (Submit now action request # events) locks =
     (let (r, locks1) = dbt_command ext now action request locks;
          (rs, locks2) = run_events ext events locks1
      in (r # rs, locks2))"
| "run_events ext (TaskRecordsCompletion p now uuid4 # events) locks =
     run_events ext events (release_lock_record p now uuid4 locks)"
| "run_events ext (TaskUnlocks p # events) locks =
     run_events ext events (release_lock_unlock p locks)"









text \<open>A concrete environment and request, for the examples below.\<close>

definition example_ext :: "(unit, unit) route_ext" where
  "example_ext =
     \<lparr>resolve = (\<lambda>p. p), path_exists = (\<lambda>p. True), lower_strip = (\<lambda>c. c),
      validate_dbt_selector = (\<lambda>s f. Inr s), validate_dbt_target = (\<lambda>t. Inr t),
      get_env_vars_from_cookie = (\<lambda>q p. ())\<rparr>"

definition example_request :: "string \<Rightarrow> string \<Rightarrow> DbtCommandRequest" where
  "example_request c s =
     \<lparr>rq_path = ''/repo/wt1'', rq_command = c, rq_selector = s, rq_target = [], rq_full_refresh = False\<rparr>"





lemma release_lock_two_parts:
  "release_lock p t u locks = release_lock_unlock p (release_lock_record p t u locks)"
  by (cases "locks p"; cases "lock (fst (get_worktree_lock p locks))")
     (simp_all add: release_lock_def release_lock_record_def release_lock_unlock_def
        get_worktree_lock_def WorktreeLock_init_def)






text \<open>
  A request handled between the two parts of the winner's \<open>release_lock\<close> finds the lock
  still held and the label already cleared: it is refused, and the detail of its 409
  names no operation.
\<close>

lemma dbt_command_conflict_without_label:
  "map (map_sum detail (sr_message \<circ> fst))
     (fst (run_events example_ext
        [Submit 1 (example_request ''run'' ''orders'') (),
         TaskRecordsCompletion ''/repo/wt1'' 2 ''id-1'',
         Submit 3 (example_request ''test'' []) ()] Map.empty))
   = [Inr ''Running: orders'', Inl ''Another operation is already running: None'']"
  by code_simp

section \<open>Three-way merge (utils/merge\_utils.py)\<close>

subsection \<open>\<open>str.splitlines(keepends=True)\<close>, \<open>str.endswith\<close>, \<open>str(int)\<close>\<close>

text \<open>
  The line boundaries of \<open>str.splitlines\<close> among the code points below 256: line feed,
  vertical tab, form feed, carriage return, the three separators 1C, 1D, 1E and NEL (85);
  a carriage return followed by a line feed is one boundary.  The two boundaries above 255
  (U+2028, U+2029) are outside the type \<open>char\<close>.
\<close>

definition is_line_boundary :: "char \<Rightarrow> bool" where
  "is_line_boundary c =
     (c = CHR 0x0A \<or> c = CHR 0x0B \<or> c = CHR 0x0C \<or> c = CHR 0x0D
      \<or> c = CHR 0x1C \<or> c = CHR 0x1D \<or> c = CHR 0x1E \<or> c = CHR 0x85)"

text \<open>\<open>splitlines_from cur s\<close>: \<open>cur\<close> is the part of the current line already read.\<close>

fun splitlines_from :: "string \<Rightarrow> string \<Rightarrow> string list" where
  "splitlines_from cur [] = (if cur = [] then [] else [cur])"
| "splitlines_from cur [c] = [cur @ [c]]"
| "splitlines_from cur (c # d # cs) =
     (if c = CHR 0x0D \<and> d = CHR 0x0A then (cur @ [c, d]) # splitlines_from [] cs
      else if is_line_boundary c then (cur @ [c]) # splitlines_from [] (d # cs)
      else splitlines_from (cur @ [c]) (d # cs))"

definition splitlines :: "string \<Rightarrow> string list" where
  "splitlines s = splitlines_from [] s"

definition endswith :: "string \<Rightarrow> string \<Rightarrow> bool" where
  "endswith s e = suffix e s"

function str_of_nat :: "nat \<Rightarrow> string" where
  "str_of_nat n =
     (if n < 10 then [''0123456789'' ! n]
      else str_of_nat (n div 10) @ [''0123456789'' ! (n mod 10)])"
  by pat_completeness auto
termination
  by (relation "measure id") auto

declare str_of_nat.simps [simp del]

subsection \<open>\<open>difflib.SequenceMatcher\<close> and \<open>difflib.unified_diff\<close>\<close>

text \<open>
  The merge calls Python's standard module \<open>difflib\<close>; the functions it reaches are
  embedded here from the module's source (CPython 3.11), for
  \<open>SequenceMatcher(None, a, b)\<close>: no junk predicate, \<open>autojunk\<close> on.  Indices are
  natural numbers; where the source computes \<open>i-k+1\<close> the model computes \<open>i+1-k\<close>, the
  same number since \<open>k \<le> i+1\<close> there (lemma \<open>match_rows_bounds\<close> below).
\<close>

text \<open>
  \<open>__chain_b\<close>: \<open>b2j[elt]\<close> lists the indices of \<open>elt\<close> in \<open>b\<close> in increasing order;
  when \<open>b\<close> has 200 elements or more, an element that occurs more than
  \<open>len(b) // 100 + 1\<close> times is popular and loses its entry.  \<open>b2j.get(elt, [])\<close> is
  \<open>b2j b elt\<close>.
\<close>

definition b2j :: "'a list \<Rightarrow> 'a \<Rightarrow> nat list" where
  "b2j b elt =
     (let idxs = filter (\<lambda>j. b ! j = elt) [0..<length b];
          n = length b
      in if n \<ge> 200 \<and> length idxs > n div 100 + 1 then [] else idxs)"

type_synonym match = "nat \<times> nat \<times> nat"

text \<open>
  The inner loop of \<open>find_longest_match\<close>, over the indices \<open>j\<close> of \<open>a[i]\<close> in \<open>b\<close>:
  \<open>continue\<close> below \<open>blo\<close>, \<open>break\<close> from \<open>bhi\<close> on.  \<open>j2len.get(j-1, 0)\<close> is 0 for
  \<open>j = 0\<close>, as \<open>-1\<close> is never a key.
\<close>

fun match_row :: "(nat \<rightharpoonup> nat) \<Rightarrow> nat \<Rightarrow> nat \<Rightarrow> nat \<Rightarrow> nat list
     \<Rightarrow> (nat \<rightharpoonup> nat) \<times> match \<Rightarrow> (nat \<rightharpoonup> nat) \<times> match" where
  "match_row j2len i blo bhi [] acc = acc"
| "match_row j2len i blo bhi (j # js) (newj2len, (besti, bestj, bestsize)) =
     (if j < blo then match_row j2len i blo bhi js (newj2len, (besti, bestj, bestsize))
      else if j \<ge> bhi then (newj2len, (besti, bestj, bestsize))
      else
        let k = (if j = 0 then 0 else case j2len (j - 1) of None \<Rightarrow> 0 | Some v \<Rightarrow> v) + 1
        in if k > bestsize
           then match_row j2len i blo bhi js (newj2len(j \<mapsto> k), (i + 1 - k, j + 1 - k, k))
           else match_row j2len i blo bhi js (newj2len(j \<mapsto> k), (besti, bestj, bestsize)))"

text \<open>The outer loop, over the rows \<open>i\<close> of \<open>range(alo, ahi)\<close>.\<close>

fun match_rows :: "'a list \<Rightarrow> 'a list \<Rightarrow> nat \<Rightarrow> nat \<Rightarrow> nat list
     \<Rightarrow> (nat \<rightharpoonup> nat) \<times> match \<Rightarrow> match" where
  "match_rows a b blo bhi [] (j2len, best) = best"
| "match_rows a b blo bhi (i # rows) (j2len, best) =
     match_rows a b blo bhi rows (match_row j2len i blo bhi (b2j b (a ! i)) (Map.empty, best))"

text \<open>
  The two loops that extend the best match at its ends.  With no junk predicate the set
  \<open>bjunk\<close> is empty, so the test \<open>not isbjunk(...)\<close> of these loops is true and the two
  further loops of the source, which need \<open>isbjunk(...)\<close>, never run.
\<close>

function extend_back :: "'a list \<Rightarrow> 'a list \<Rightarrow> nat \<Rightarrow> nat \<Rightarrow> match \<Rightarrow> match" where
  "extend_back a b alo blo (besti, bestj, bestsize) =
     (if besti > alo \<and> bestj > blo \<and> a ! (besti - 1) = b ! (bestj - 1)
      then extend_back a b alo blo (besti - 1, bestj - 1, bestsize + 1)
      else (besti, bestj, bestsize))"
  by pat_completeness auto
termination
  by (relation "measure (\<lambda>(a, b, alo, blo, besti, bestj, bestsize). besti)") auto

function extend_forward :: "'a list \<Rightarrow> 'a list \<Rightarrow> nat \<Rightarrow> nat \<Rightarrow> match \<Rightarrow> match" where
  "extend_forward a b ahi bhi (besti, bestj, bestsize) =
     (if besti + bestsize < ahi \<and> bestj + bestsize < bhi
         \<and> a ! (besti + bestsize) = b ! (bestj + bestsize)
      then extend_forward a b ahi bhi (besti, bestj, bestsize + 1)
      else (besti, bestj, bestsize))"
  by pat_completeness auto
termination
  by (relation "measure (\<lambda>(a, b, ahi, bhi, besti, bestj, bestsize). ahi - (besti + bestsize))") auto

declare extend_back.simps [simp del] extend_forward.simps [simp del]

definition find_longest_match :: "'a list \<Rightarrow> 'a list \<Rightarrow> nat \<Rightarrow> nat \<Rightarrow> nat \<Rightarrow> nat \<Rightarrow> match" where
  "find_longest_match a b alo ahi blo bhi =
     extend_forward a b ahi bhi
       (extend_back a b alo blo
          (match_rows a b blo bhi [alo..<ahi] (Map.empty, (alo, blo, 0))))"

text \<open>
  Where a match lies: empty at the corner \<open>(alo, blo)\<close>, or inside the window
  \<open>a[alo:ahi]\<close>, \<open>b[blo:bhi]\<close>.
\<close>

definition in_window :: "nat \<Rightarrow> nat \<Rightarrow> nat \<Rightarrow> nat \<Rightarrow> match \<Rightarrow> bool" where
  "in_window alo ahi blo bhi m =
     (case m of (besti, bestj, bestsize) \<Rightarrow>
        (bestsize = 0 \<and> besti = alo \<and> bestj = blo)
        \<or> (alo \<le> besti \<and> besti + bestsize \<le> ahi \<and> blo \<le> bestj \<and> bestj + bestsize \<le> bhi))"

definition row_lengths_ok :: "nat \<Rightarrow> nat \<Rightarrow> nat \<Rightarrow> (nat \<rightharpoonup> nat) \<Rightarrow> bool" where
  "row_lengths_ok alo blo i j2len = (\<forall>j v. j2len j = Some v \<longrightarrow> v + alo \<le> i \<and> v + blo \<le> j + 1)"

lemma match_row_bounds:
  assumes "row_lengths_ok alo blo i j2len" "alo \<le> i" "i < ahi"
    and "in_window alo ahi blo bhi best" "row_lengths_ok alo blo (i + 1) newj2len"
  shows "in_window alo ahi blo bhi (snd (match_row j2len i blo bhi js (newj2len, best)))
       \<and> row_lengths_ok alo blo (i + 1) (fst (match_row j2len i blo bhi js (newj2len, best)))"
  using assms(4,5)
proof (induction js arbitrary: newj2len best)
  case Nil
  then show ?case by simp
next
  case (Cons j js)
  obtain besti bestj bestsize where best: "best = (besti, bestj, bestsize)" by (cases best)
  show ?case
  proof (cases "j < blo \<or> j \<ge> bhi")
    case True
    with Cons best show ?thesis by auto
  next
    case False
    define k where "k = (if j = 0 then 0 else case j2len (j - 1) of None \<Rightarrow> 0 | Some v \<Rightarrow> v) + 1"
    have prev: "v + alo \<le> i \<and> v + blo \<le> j" if "0 < j" "j2len (j - 1) = Some v" for v
      using assms(1) that unfolding row_lengths_ok_def by fastforce
    have k: "k + alo \<le> i + 1 \<and> k + blo \<le> j + 1"
      using assms(2) False prev
      by (auto simp: k_def split: option.splits)
    have new: "row_lengths_ok alo blo (i + 1) (newj2len(j \<mapsto> k))"
      using Cons.prems(2) k by (auto simp: row_lengths_ok_def)
    have win: "in_window alo ahi blo bhi (i + 1 - k, j + 1 - k, k)"
      using k assms(3) False by (auto simp: in_window_def)
    have step: "match_row j2len i blo bhi (j # js) (newj2len, best) =
        (if k > bestsize
         then match_row j2len i blo bhi js (newj2len(j \<mapsto> k), (i + 1 - k, j + 1 - k, k))
         else match_row j2len i blo bhi js (newj2len(j \<mapsto> k), best))"
      using False by (simp add: best k_def Let_def)
    show ?thesis
    proof (cases "k > bestsize")
      case True
      with Cons.IH [OF win new] show ?thesis by (simp only: step if_True)
    next
      case False
      with Cons.IH [OF Cons.prems(1) new] show ?thesis by (simp only: step if_False)
    qed
  qed
qed

lemma match_rows_bounds:
  assumes "row_lengths_ok alo blo i j2len" "alo \<le> i" "in_window alo ahi blo bhi best"
  shows "in_window alo ahi blo bhi (match_rows a b blo bhi [i..<ahi] (j2len, best))"
  using assms
proof (induction "ahi - i" arbitrary: i j2len best)
  case 0
  then show ?case by simp
next
  case (Suc n)
  then have lt: "i < ahi" and n: "n = ahi - Suc i" by simp_all
  have empty: "row_lengths_ok alo blo (i + 1) Map.empty" by (simp add: row_lengths_ok_def)
  from match_row_bounds [OF Suc.prems(1,2) lt Suc.prems(3) empty, of "b2j b (a ! i)"]
  have step: "in_window alo ahi blo bhi (snd (match_row j2len i blo bhi (b2j b (a ! i)) (Map.empty, best)))"
    "row_lengths_ok alo blo (Suc i) (fst (match_row j2len i blo bhi (b2j b (a ! i)) (Map.empty, best)))"
    by simp_all
  from Suc.hyps(1) [OF n step(2) _ step(1)] Suc.prems(2) lt show ?case
    by (simp add: upt_conv_Cons split_beta del: match_row.simps)
qed

lemma extend_back_bounds:
  "in_window alo ahi blo bhi m \<Longrightarrow> in_window alo ahi blo bhi (extend_back a b alo blo m)"
proof (induction a b alo blo m rule: extend_back.induct)
  case (1 a b alo blo besti bestj bestsize)
  show ?case
  proof (cases "besti > alo \<and> bestj > blo \<and> a ! (besti - 1) = b ! (bestj - 1)")
    case True
    from "1.prems" True have "in_window alo ahi blo bhi (besti - 1, bestj - 1, bestsize + 1)"
      by (auto simp: in_window_def)
    moreover have "extend_back a b alo blo (besti, bestj, bestsize)
        = extend_back a b alo blo (besti - 1, bestj - 1, bestsize + 1)"
      using True by (subst extend_back.simps) simp
    ultimately show ?thesis using "1.IH" True by simp
  next
    case False
    have "extend_back a b alo blo (besti, bestj, bestsize) = (besti, bestj, bestsize)"
      by (subst extend_back.simps, simp only: False if_False)
    with "1.prems" show ?thesis by simp
  qed
qed

lemma extend_forward_bounds:
  "in_window alo ahi blo bhi m \<Longrightarrow> in_window alo ahi blo bhi (extend_forward a b ahi bhi m)"
proof (induction a b ahi bhi m rule: extend_forward.induct)
  case (1 a b ahi bhi besti bestj bestsize)
  show ?case
  proof (cases "besti + bestsize < ahi \<and> bestj + bestsize < bhi
         \<and> a ! (besti + bestsize) = b ! (bestj + bestsize)")
    case True
    from "1.prems" True have "in_window alo ahi blo bhi (besti, bestj, bestsize + 1)"
      by (auto simp: in_window_def)
    moreover have "extend_forward a b ahi bhi (besti, bestj, bestsize)
        = extend_forward a b ahi bhi (besti, bestj, bestsize + 1)"
      using True by (subst extend_forward.simps) simp
    ultimately show ?thesis using "1.IH" True by simp
  next
    case False
    have "extend_forward a b ahi bhi (besti, bestj, bestsize) = (besti, bestj, bestsize)"
      by (subst extend_forward.simps, simp only: False if_False)
    with "1.prems" show ?thesis by simp
  qed
qed

lemma find_longest_match_bounds:
  "in_window alo ahi blo bhi (find_longest_match a b alo ahi blo bhi)"
proof -
  have "row_lengths_ok alo blo alo Map.empty" by (simp add: row_lengths_ok_def)
  moreover have "in_window alo ahi blo bhi (alo, blo, 0)" by (simp add: in_window_def)
  ultimately have "in_window alo ahi blo bhi
      (match_rows a b blo bhi [alo..<ahi] (Map.empty, (alo, blo, 0)))"
    by (intro match_rows_bounds) simp_all
  then show ?thesis
    unfolding find_longest_match_def
    by (intro extend_forward_bounds extend_back_bounds)
qed

text \<open>
  The loop of \<open>get_matching_blocks\<close> over its work list.  The source pops the last element
  of \<open>queue\<close> and appends at its end; here the list is kept with that end first.
\<close>

function matching_loop :: "'a list \<Rightarrow> 'a list \<Rightarrow> (nat \<times> nat \<times> nat \<times> nat) list
     \<Rightarrow> match list \<Rightarrow> match list" where
  "matching_loop a b [] matching_blocks = matching_blocks"
| "matching_loop a b ((alo, ahi, blo, bhi) # queue) matching_blocks =
     (case find_longest_match a b alo ahi blo bhi of
        (i, j, k) \<Rightarrow>
          if k \<noteq> 0
          then matching_loop a b
                 ((if i + k < ahi \<and> j + k < bhi then [(i + k, ahi, j + k, bhi)] else [])
                  @ (if alo < i \<and> blo < j then [(alo, i, blo, j)] else [])
                  @ queue)
                 (matching_blocks @ [(i, j, k)])
          else matching_loop a b queue matching_blocks)"
  by pat_completeness auto
termination
  apply (relation "measure (\<lambda>(a, b, queue, blocks).
         sum_list (map (\<lambda>(alo, ahi, blo, bhi). 2 * (ahi - alo) + 1) queue))")
    apply simp
  subgoal for a b alo ahi blo bhi queue matching_blocks
    using find_longest_match_bounds [of alo ahi blo bhi a b]
    by (auto simp: in_window_def)
  subgoal by simp
  done

declare matching_loop.simps [simp del]

text \<open>
  The rest of \<open>get_matching_blocks\<close>: sort the triples (tuples compare
  lexicographically), merge blocks that touch, add the sentinel.
\<close>

fun collapse_adjacent :: "match \<Rightarrow> match list \<Rightarrow> match list" where
  "collapse_adjacent (i1, j1, k1) [] = (if k1 \<noteq> 0 then [(i1, j1, k1)] else [])"
| "collapse_adjacent (i1, j1, k1) ((i2, j2, k2) # rest) =
     (if i1 + k1 = i2 \<and> j1 + k1 = j2
      then collapse_adjacent (i1, j1, k1 + k2) rest
      else (if k1 \<noteq> 0 then [(i1, j1, k1)] else []) @ collapse_adjacent (i2, j2, k2) rest)"

definition get_matching_blocks :: "'a list \<Rightarrow> 'a list \<Rightarrow> match list" where
  "get_matching_blocks a b =
     (let la = length a; lb = length b;
          matching_blocks = sort (matching_loop a b [(0, la, 0, lb)] [])
      in collapse_adjacent (0, 0, 0) matching_blocks @ [(la, lb, 0)])"

datatype tag = Replace | Delete | Insert | Equal

type_synonym opcode = "tag \<times> nat \<times> nat \<times> nat \<times> nat"

fun opcodes_from :: "nat \<Rightarrow> nat \<Rightarrow> match list \<Rightarrow> opcode list" where
  "opcodes_from i j [] = []"
| "opcodes_from i j ((ai, bj, sz) # rest) =
     (if i < ai \<and> j < bj then [(Replace, i, ai, j, bj)]
      else if i < ai then [(Delete, i, ai, j, bj)]
      else if j < bj then [(Insert, i, ai, j, bj)]
      else [])
     @ (if sz \<noteq> 0 then [(Equal, ai, ai + sz, bj, bj + sz)] else [])
     @ opcodes_from (ai + sz) (bj + sz) rest"

definition get_opcodes :: "'a list \<Rightarrow> 'a list \<Rightarrow> opcode list" where
  "get_opcodes a b = opcodes_from 0 0 (get_matching_blocks a b)"

text \<open>A slice \<open>xs[i:j]\<close> with indices that are not negative.\<close>

definition slice :: "'a list \<Rightarrow> nat \<Rightarrow> nat \<Rightarrow> 'a list" where
  "slice xs i j = take (j - i) (drop i xs)"

text \<open>\<open>get_grouped_opcodes(n)\<close>: the generator's groups, in order.\<close>

fun fix_leading :: "nat \<Rightarrow> opcode list \<Rightarrow> opcode list" where
  "fix_leading n ((Equal, i1, i2, j1, j2) # codes) = (Equal, max i1 (i2 - n), i2, max j1 (j2 - n), j2) # codes"
| "fix_leading n codes = codes"

fun fix_trailing :: "nat \<Rightarrow> opcode list \<Rightarrow> opcode list" where
  "fix_trailing n [] = []"
| "fix_trailing n [(tg, i1, i2, j1, j2)] =
     (if tg = Equal then [(tg, i1, min i2 (i1 + n), j1, min j2 (j1 + n))] else [(tg, i1, i2, j1, j2)])"
| "fix_trailing n (c # codes) = c # fix_trailing n codes"

fun grouping :: "nat \<Rightarrow> opcode list \<Rightarrow> opcode list \<Rightarrow> opcode list list" where
  "grouping n [] grp =
     (if grp \<noteq> [] \<and> \<not> (length grp = 1 \<and> fst (hd grp) = Equal) then [grp] else [])"
| "grouping n ((tg, i1, i2, j1, j2) # codes) grp =
     (if tg = Equal \<and> i2 - i1 > n + n
      then (grp @ [(tg, i1, min i2 (i1 + n), j1, min j2 (j1 + n))])
           # grouping n codes [(tg, max i1 (i2 - n), i2, max j1 (j2 - n), j2)]
      else grouping n codes (grp @ [(tg, i1, i2, j1, j2)]))"

definition get_grouped_opcodes :: "nat \<Rightarrow> 'a list \<Rightarrow> 'a list \<Rightarrow> opcode list list" where
  "get_grouped_opcodes n a b =
     (let codes = get_opcodes a b;
          codes = (if codes = [] then [(Equal, 0, 1, 0, 1)] else codes)
      in grouping n (fix_trailing n (fix_leading n codes)) [])"

text \<open>
  \<open>unified_diff(a, b, lineterm='')\<close> with its defaults (no file names or dates, three
  lines of context), as the list the source builds from the generator.
\<close>

definition format_range_unified :: "nat \<Rightarrow> nat \<Rightarrow> string" where
  "format_range_unified start stop =
     (let beginning = start + 1;
          len = stop - start
      in if len = 1 then str_of_nat beginning
         else str_of_nat (if len = 0 then beginning - 1 else beginning) @ '','' @ str_of_nat len)"

definition diff_lines :: "string list \<Rightarrow> string list \<Rightarrow> opcode \<Rightarrow> string list" where
  "diff_lines a b code =
     (case code of (tg, i1, i2, j1, j2) \<Rightarrow>
        if tg = Equal then map (\<lambda>line. '' '' @ line) (slice a i1 i2)
        else (if tg = Replace \<or> tg = Delete then map (\<lambda>line. ''-'' @ line) (slice a i1 i2) else [])
             @ (if tg = Replace \<or> tg = Insert then map (\<lambda>line. ''+'' @ line) (slice b j1 j2) else []))"

definition diff_group :: "string list \<Rightarrow> string list \<Rightarrow> opcode list \<Rightarrow> string list" where
  "diff_group a b grp =
     (case (hd grp, last grp) of
        ((t1, f1, f2, f3, f4), (t2, l1, l2, l3, l4)) \<Rightarrow>
          (''@@ -'' @ format_range_unified f1 l2 @ '' +'' @ format_range_unified f3 l4 @ '' @@'')
          # concat (map (diff_lines a b) grp))"

definition unified_diff :: "string list \<Rightarrow> string list \<Rightarrow> string list" where
  "unified_diff a b =
     (case get_grouped_opcodes 3 a b of
        [] \<Rightarrow> []
      | groups \<Rightarrow> [''--- '', ''+++ ''] @ concat (map (diff_group a b) groups))"

subsection \<open>\<open>three_way_merge\<close> and \<open>simple_merge\<close>\<close>

text \<open>
  A change recorded for an index of the original lines: the kind and the replacement
  lines.  \<open>record_change\<close> is the body of the loop over \<open>range(i1, max(i2, i1 + 1))\<close>,
  \<open>build_changes\<close> the loop over the opcodes; a later assignment to an index replaces an
  earlier one, as in the dictionary.
\<close>

type_synonym change = "tag \<times> string list"

definition record_change :: "tag \<Rightarrow> nat \<Rightarrow> string list \<Rightarrow> nat \<Rightarrow> (nat \<rightharpoonup> change) \<Rightarrow> (nat \<rightharpoonup> change)" where
  "record_change tg i1 new i changes =
     (if tg = Insert \<and> i = i1 then changes(i \<mapsto> (Insert, new))
      else if tg = Delete then changes(i \<mapsto> (Delete, []))
      else if tg = Replace
      then (if i = i1 then changes(i \<mapsto> (Replace, new)) else changes(i \<mapsto> (Delete, [])))
      else changes)"

definition build_changes :: "string list \<Rightarrow> opcode list \<Rightarrow> (nat \<rightharpoonup> change)" where
  "build_changes new_lines opcodes =
     fold (\<lambda>(tg, i1, i2, j1, j2) changes.
             if tg = Replace \<or> tg = Delete \<or> tg = Insert
             then fold (record_change tg i1 (slice new_lines j1 j2)) [i1..<max i2 (i1 + 1)] changes
             else changes)
          opcodes Map.empty"

text \<open>
  The body of the loop \<open>while i < len(original_lines)\<close>, on the triple
  \<open>(merged_lines, has_conflicts, conflicts)\<close>.
\<close>

definition apply_change :: "change \<Rightarrow> string list \<Rightarrow> string list" where
  "apply_change ch merged_lines =
     (case ch of (change_type, new_lines) \<Rightarrow>
        if change_type = Delete then merged_lines
        else if change_type = Replace \<or> change_type = Insert then merged_lines @ new_lines
        else merged_lines)"

definition merge_line :: "string list \<Rightarrow> (nat \<rightharpoonup> change) \<Rightarrow> (nat \<rightharpoonup> change) \<Rightarrow> nat
     \<Rightarrow> string list \<times> bool \<times> string list \<Rightarrow> string list \<times> bool \<times> string list" where
  "merge_line original_lines user_changes disk_changes i st =
     (case st of (merged_lines, has_conflicts, conflicts) \<Rightarrow>
        (case (user_changes i, disk_changes i) of
           (None, None) \<Rightarrow> (merged_lines @ [original_lines ! i], has_conflicts, conflicts)
         | (None, Some disk_change) \<Rightarrow> (apply_change disk_change merged_lines, has_conflicts, conflicts)
         | (Some user_change, None) \<Rightarrow> (apply_change user_change merged_lines, has_conflicts, conflicts)
         | (Some (user_type, user_new), Some (disk_type, disk_new)) \<Rightarrow>
             if user_new = disk_new
             then (if user_type \<noteq> Delete then merged_lines @ user_new else merged_lines,
                   has_conflicts, conflicts)
             else (merged_lines
                     @ [''<<<<<<< YOUR CHANGES\<newline>'']
                     @ (if user_new \<noteq> [] then user_new else [''(line deleted)\<newline>''])
                     @ [''=======\<newline>'']
                     @ (if disk_new \<noteq> [] then disk_new else [''(line deleted)\<newline>''])
                     @ [''>>>>>>> DISK VERSION\<newline>''],
                   True,
                   conflicts @ [''Conflict at line '' @ str_of_nat (i + 1)])))"

definition three_way_merge :: "string \<Rightarrow> string \<Rightarrow> string \<Rightarrow> string \<times> bool \<times> string list" where
  "three_way_merge original user_version disk_version =
     (let original_lines = splitlines original;
          user_lines = splitlines user_version;
          disk_lines = splitlines disk_version;
          user_diff = unified_diff original_lines user_lines;
          disk_diff = unified_diff original_lines disk_lines
      in if user_diff = [] \<and> disk_diff = [] then (original, False, [])
         else if disk_diff = [] then (user_version, False, [])
         else if user_diff = [] then (disk_version, False, [])
         else
           let user_changes = build_changes user_lines (get_opcodes original_lines user_lines);
               disk_changes = build_changes disk_lines (get_opcodes original_lines disk_lines);
               (merged_lines, has_conflicts, conflicts) =
                  fold (merge_line original_lines user_changes disk_changes)
                       [0..<length original_lines] ([], False, []);
               merged_content = concat merged_lines;
               merged_content =
                  (if endswith original ''\<newline>'' \<and> \<not> endswith merged_content ''\<newline>''
                   then merged_content @ ''\<newline>'' else merged_content)
           in (merged_content, has_conflicts, conflicts))"

definition simple_merge :: "string \<Rightarrow> string \<Rightarrow> string \<Rightarrow> string \<times> bool" where
  "simple_merge original user_version disk_version =
     (if disk_version = original then (user_version, False)
      else if user_version = original then (disk_version, True)
      else if user_version = disk_version then (user_version, False)
      else
        case three_way_merge original user_version disk_version of
          (merged, has_conflicts, conflicts) \<Rightarrow>
            if has_conflicts then (merged, True) else (merged, True))"

subsection \<open>A sequence compared with itself\<close>

text \<open>
  \<open>diag_run a i\<close>: the number of consecutive elements of \<open>a\<close>, ending at index \<open>i\<close>,
  that have an entry in \<open>b2j\<close> (are not popular).
\<close>

fun diag_run :: "'a list \<Rightarrow> nat \<Rightarrow> nat" where
  "diag_run a 0 = (if b2j a (a ! 0) = [] then 0 else 1)"
| "diag_run a (Suc i) = (if b2j a (a ! Suc i) = [] then 0 else diag_run a i + 1)"

definition prev_ok :: "'a list \<Rightarrow> nat \<Rightarrow> (nat \<rightharpoonup> nat) \<Rightarrow> bool" where
  "prev_ok a i j2len =
     (if i = 0 then j2len = Map.empty
      else (\<forall>j v. j2len j = Some v \<longrightarrow> v \<le> diag_run a j \<and> v \<le> diag_run a (i - 1))
           \<and> j2len (i - 1) = (if diag_run a (i - 1) = 0 then None else Some (diag_run a (i - 1))))"

definition best_ok :: "'a list \<Rightarrow> nat \<Rightarrow> match \<Rightarrow> bool" where
  "best_ok a i m = (case m of (besti, bestj, bestsize) \<Rightarrow>
      besti = bestj \<and> (\<forall>i'<i. diag_run a i' \<le> bestsize))"

lemma b2j_cases:
  "b2j b elt = [] \<or> b2j b elt = filter (\<lambda>j. b ! j = elt) [0..<length b]"
  by (simp add: b2j_def Let_def)

lemma b2j_self_mem: "i < length a \<Longrightarrow> b2j a (a ! i) \<noteq> [] \<Longrightarrow> i \<in> set (b2j a (a ! i))"
  using b2j_cases [of a "a ! i"] by auto

lemma b2j_mem: "j \<in> set (b2j a x) \<Longrightarrow> j < length a \<and> a ! j = x"
  using b2j_cases [of a x] by auto

lemma b2j_sorted: "sorted_wrt (<) (b2j a x)"
proof -
  have "sorted_wrt (<) (filter (\<lambda>j. a ! j = x) [0..<length a])"
    by (rule sorted_wrt_filter) simp
  with b2j_cases [of a x] show ?thesis by auto
qed

lemma diag_run_pos:
  "b2j a (a ! i) \<noteq> [] \<Longrightarrow> diag_run a i = (if i = 0 then 1 else diag_run a (i - 1) + 1)"
  by (cases i) simp_all

lemma match_row_diag:
  assumes prev: "prev_ok a i j2len" and i: "i < length a" and np: "b2j a (a ! i) \<noteq> []"
  shows "sorted_wrt (<) js \<Longrightarrow> \<forall>j\<in>set js. j < length a \<and> a ! j = a ! i
     \<Longrightarrow> best_ok a i best
     \<Longrightarrow> \<forall>j v. newj2len j = Some v \<longrightarrow> v \<le> diag_run a j \<and> v \<le> diag_run a i
     \<Longrightarrow> i \<in> set js \<or> (diag_run a i \<le> snd (snd best) \<and> newj2len i = Some (diag_run a i))
     \<Longrightarrow> (case match_row j2len i 0 (length a) js (newj2len, best) of
           (nj, best') \<Rightarrow>
             best_ok a (Suc i) best'
             \<and> (\<forall>j v. nj j = Some v \<longrightarrow> v \<le> diag_run a j \<and> v \<le> diag_run a i)
             \<and> nj i = Some (diag_run a i))"
proof (induction js arbitrary: newj2len best)
  case Nil
  obtain bi bj bk where best: "best = (bi, bj, bk)" by (cases best)
  from Nil best show ?case
    by (auto simp: best_ok_def less_Suc_eq)
next
  case (Cons j js)
  obtain bi bj bk where best: "best = (bi, bj, bk)" by (cases best)
  from Cons.prems(2) have j: "j < length a" "a ! j = a ! i" by simp_all
  with np have npj: "b2j a (a ! j) \<noteq> []" by simp
  define k where "k = (if j = 0 then 0 else case j2len (j - 1) of None \<Rightarrow> 0 | Some v \<Rightarrow> v) + 1"
  have step: "match_row j2len i 0 (length a) (j # js) (newj2len, best) =
      (if k > bk
       then match_row j2len i 0 (length a) js (newj2len(j \<mapsto> k), (i + 1 - k, j + 1 - k, k))
       else match_row j2len i 0 (length a) js (newj2len(j \<mapsto> k), best))"
    using j by (simp add: best k_def Let_def)
  have kj: "k \<le> diag_run a j" and ki: "k \<le> diag_run a i"
  proof -
    have "k \<le> diag_run a j \<and> k \<le> diag_run a i"
    proof (cases "j = 0 \<or> j2len (j - 1) = None")
      case True
      then have "k = 1" by (auto simp: k_def)
      then show ?thesis using diag_run_pos [OF np] diag_run_pos [OF npj] by simp
    next
      case False
      then obtain v where v: "j2len (j - 1) = Some v" and j0: "j \<noteq> 0" by auto
      with prev have i0: "i \<noteq> 0" by (auto simp: prev_ok_def split: if_splits)
      with prev v have "v \<le> diag_run a (j - 1) \<and> v \<le> diag_run a (i - 1)"
        by (simp add: prev_ok_def)
      moreover have "k = v + 1" using v j0 by (simp add: k_def)
      ultimately show ?thesis
        using diag_run_pos [OF np] diag_run_pos [OF npj] i0 j0 by simp
    qed
    then show "k \<le> diag_run a j" "k \<le> diag_run a i" by simp_all
  qed
  have sorted: "sorted_wrt (<) js" and above: "\<forall>x\<in>set js. j < x"
    using Cons.prems(1) by simp_all
  have rest: "\<forall>j\<in>set js. j < length a \<and> a ! j = a ! i" using Cons.prems(2) by simp
  have new: "\<forall>j' v. (newj2len(j \<mapsto> k)) j' = Some v \<longrightarrow> v \<le> diag_run a j' \<and> v \<le> diag_run a i"
    using Cons.prems(4) kj ki by auto
  consider (below) "j < i" | (at) "j = i" | (above) "j > i" by linarith
  then show ?case
  proof cases
    case below
    with Cons.prems(3) best have "diag_run a j \<le> bk" by (simp add: best_ok_def)
    with kj have nk: "\<not> k > bk" by simp
    have "i \<in> set js \<or> (diag_run a i \<le> snd (snd best) \<and> (newj2len(j \<mapsto> k)) i = Some (diag_run a i))"
      using Cons.prems(5) below by auto
    from Cons.IH [OF sorted rest Cons.prems(3) new this] nk show ?thesis
      by (simp only: step if_False)
  next
    case at
    have keq: "k = diag_run a i"
    proof (cases "i = 0")
      case True
      with at show ?thesis using diag_run_pos [OF np] by (simp add: k_def)
    next
      case False
      with prev have "j2len (i - 1) = (if diag_run a (i - 1) = 0 then None else Some (diag_run a (i - 1)))"
        by (simp add: prev_ok_def)
      with False at show ?thesis using diag_run_pos [OF np] by (simp add: k_def)
    qed
    show ?thesis
    proof (cases "k > bk")
      case True
      have b': "best_ok a i (i + 1 - k, j + 1 - k, k)"
        using Cons.prems(3) best True at by (auto simp: best_ok_def)
      have "i \<in> set js \<or> (diag_run a i \<le> snd (snd (i + 1 - k, j + 1 - k, k))
          \<and> (newj2len(j \<mapsto> k)) i = Some (diag_run a i))"
        using keq at by simp
      from Cons.IH [OF sorted rest b' new this] True show ?thesis
        by (simp only: step if_True)
    next
      case False
      have "i \<in> set js \<or> (diag_run a i \<le> snd (snd best)
          \<and> (newj2len(j \<mapsto> k)) i = Some (diag_run a i))"
        using keq at False best by simp
      from Cons.IH [OF sorted rest Cons.prems(3) new this] False show ?thesis
        by (simp only: step if_False)
    qed
  next
    case above
    with \<open>\<forall>x\<in>set js. j < x\<close> have notin: "i \<notin> set (j # js)" by auto
    with Cons.prems(5) have d: "diag_run a i \<le> snd (snd best)" "newj2len i = Some (diag_run a i)"
      by simp_all
    with ki best have nk: "\<not> k > bk" by simp
    have "i \<in> set js \<or> (diag_run a i \<le> snd (snd best) \<and> (newj2len(j \<mapsto> k)) i = Some (diag_run a i))"
      using d above by simp
    from Cons.IH [OF sorted rest Cons.prems(3) new this] nk show ?thesis
      by (simp only: step if_False)
  qed
qed

lemma match_row_self:
  assumes prev: "prev_ok a i j2len" and i: "i < length a" and best: "best_ok a i best"
  shows "best_ok a (Suc i) (snd (match_row j2len i 0 (length a) (b2j a (a ! i)) (Map.empty, best)))
       \<and> prev_ok a (Suc i) (fst (match_row j2len i 0 (length a) (b2j a (a ! i)) (Map.empty, best)))"
proof (cases "b2j a (a ! i) = []")
  case True
  then have "diag_run a i = 0" by (cases i) simp_all
  with best True show ?thesis
    by (cases best) (auto simp: best_ok_def prev_ok_def less_Suc_eq)
next
  case False
  have mem: "\<forall>j\<in>set (b2j a (a ! i)). j < length a \<and> a ! j = a ! i"
    using b2j_mem by fastforce
  have start: "i \<in> set (b2j a (a ! i))
      \<or> (diag_run a i \<le> snd (snd best) \<and> Map.empty i = Some (diag_run a i))"
    using b2j_self_mem [OF i False] by simp
  have "\<forall>j v. Map.empty j = Some v \<longrightarrow> v \<le> diag_run a j \<and> v \<le> diag_run a i" by simp
  from match_row_diag [OF prev i False b2j_sorted mem best this start]
  have r: "best_ok a (Suc i) (snd (match_row j2len i 0 (length a) (b2j a (a ! i)) (Map.empty, best)))"
    "\<forall>j v. fst (match_row j2len i 0 (length a) (b2j a (a ! i)) (Map.empty, best)) j = Some v
        \<longrightarrow> v \<le> diag_run a j \<and> v \<le> diag_run a i"
    "fst (match_row j2len i 0 (length a) (b2j a (a ! i)) (Map.empty, best)) i = Some (diag_run a i)"
    by (simp_all add: split_beta)
  have "diag_run a i \<noteq> 0" using diag_run_pos [OF False] by simp
  with r show ?thesis by (simp add: prev_ok_def)
qed

lemma match_rows_self:
  assumes "prev_ok a i j2len" "best_ok a i best" "i \<le> length a"
  shows "fst (match_rows a a 0 (length a) [i..<length a] (j2len, best))
       = fst (snd (match_rows a a 0 (length a) [i..<length a] (j2len, best)))"
  using assms
proof (induction "length a - i" arbitrary: i j2len best)
  case 0
  then show ?case by (cases best) (simp add: best_ok_def)
next
  case (Suc n)
  then have lt: "i < length a" and n: "n = length a - Suc i" by simp_all
  from match_row_self [OF Suc.prems(1) lt Suc.prems(2)]
  have step: "best_ok a (Suc i) (snd (match_row j2len i 0 (length a) (b2j a (a ! i)) (Map.empty, best)))"
    "prev_ok a (Suc i) (fst (match_row j2len i 0 (length a) (b2j a (a ! i)) (Map.empty, best)))"
    by simp_all
  obtain nj best' where mr: "match_row j2len i 0 (length a) (b2j a (a ! i)) (Map.empty, best) = (nj, best')"
    by (cases "match_row j2len i 0 (length a) (b2j a (a ! i)) (Map.empty, best)")
  from Suc.hyps(1) [OF n, of nj best'] step lt mr show ?case
    by (simp add: upt_conv_Cons del: match_row.simps)
qed

lemma extend_back_self: "extend_back a a 0 0 (d, d, k) = (0, 0, k + d)"
proof (induction d arbitrary: k)
  case 0
  show ?case by (subst extend_back.simps) simp
next
  case (Suc d)
  have "extend_back a a 0 0 (Suc d, Suc d, k) = extend_back a a 0 0 (d, d, k + 1)"
    by (subst extend_back.simps) simp
  with Suc [of "k + 1"] show ?case by simp
qed

lemma extend_forward_self:
  "k \<le> length a \<Longrightarrow> extend_forward a a (length a) (length a) (0, 0, k) = (0, 0, length a)"
proof (induction "length a - k" arbitrary: k)
  case 0
  then show ?case by (subst extend_forward.simps) simp
next
  case (Suc n)
  then have "extend_forward a a (length a) (length a) (0, 0, k)
      = extend_forward a a (length a) (length a) (0, 0, k + 1)"
    by (subst extend_forward.simps) simp
  with Suc.hyps(1) [of "k + 1"] Suc.hyps(2) Suc.prems show ?case by simp
qed

lemma find_longest_match_self:
  "find_longest_match a a 0 (length a) 0 (length a) = (0, 0, length a)"
proof -
  let ?m = "match_rows a a 0 (length a) [0..<length a] (Map.empty, (0, 0, 0))"
  obtain d e k where m: "?m = (d, e, k)" by (cases ?m)
  have "prev_ok a 0 Map.empty" "best_ok a 0 (0, 0, 0)" by (simp_all add: prev_ok_def best_ok_def)
  from match_rows_self [OF this] m have e: "e = d" by simp
  have "row_lengths_ok 0 0 0 Map.empty" by (simp add: row_lengths_ok_def)
  moreover have "in_window 0 (length a) 0 (length a) (0, 0, 0)" by (simp add: in_window_def)
  ultimately have "in_window 0 (length a) 0 (length a) ?m"
    by (intro match_rows_bounds) simp_all
  with m have le: "k + d \<le> length a" by (auto simp: in_window_def)
  show ?thesis
    unfolding find_longest_match_def m e
    by (simp add: extend_back_self extend_forward_self le)
qed

lemma get_opcodes_self:
  "get_opcodes a a = (if a = [] then [] else [(Equal, 0, length a, 0, length a)])"
proof -
  have loop: "matching_loop a a [(0, length a, 0, length a)] []
      = (if a = [] then [] else [(0, 0, length a)])"
    by (subst matching_loop.simps)
       (simp add: find_longest_match_self matching_loop.simps)
  show ?thesis
    by (simp add: get_opcodes_def get_matching_blocks_def loop Let_def)
qed

lemma unified_diff_self: "unified_diff a a = []"
  by (simp add: unified_diff_def get_grouped_opcodes_def get_opcodes_self)

subsection \<open>Conflicts of \<open>three_way_merge\<close>\<close>

lemma three_way_merge_unchanged_user:
  "\<not> fst (snd (three_way_merge original original disk_version))"
  by (simp add: three_way_merge_def unified_diff_self Let_def)

lemma three_way_merge_unchanged_disk:
  "\<not> fst (snd (three_way_merge original user_version original))"
  by (simp add: three_way_merge_def unified_diff_self Let_def)











subsection \<open>The fast paths of \<open>simple_merge\<close>\<close>

text \<open>
  Claim C5.  For all texts \<open>B\<close>, \<open>L\<close>, \<open>R\<close>: \<open>simple_merge(B, B, B)\<close> returns \<open>B\<close>,
  \<open>simple_merge(B, L, B)\<close> returns \<open>L\<close> and \<open>simple_merge(B, B, R)\<close> returns \<open>R\<close>, each
  time the input text itself, to which no conflict block has been added; and on each of
  the three inputs \<open>three_way_merge\<close>, the only place where a conflict is raised, reports
  no conflict.  The second component of \<open>simple_merge\<close> is not a conflict flag: it says
  whether others changed the content, and is false on the first two paths and true on the
  third exactly when \<open>R\<close> differs from \<open>B\<close>.
\<close>

theorem simple_merge_fast_paths:
  "fst (simple_merge B B B) = B \<and> \<not> fst (snd (three_way_merge B B B))
   \<and> fst (simple_merge B L B) = L \<and> \<not> fst (snd (three_way_merge B L B))
   \<and> fst (simple_merge B B R) = R \<and> \<not> fst (snd (three_way_merge B B R))
   \<and> snd (simple_merge B B B) = False
   \<and> snd (simple_merge B L B) = False
   \<and> snd (simple_merge B B R) = (R \<noteq> B)"
  by (simp add: simple_merge_def three_way_merge_unchanged_user three_way_merge_unchanged_disk)

subsection \<open>Divergent edits of one line\<close>

text \<open>
  Claim C6.  For the baseline \<open>a, b, c\<close> (each line ended by a line feed), the user's
  version with line 2 replaced by \<open>LOCAL\<close> and the disk version with line 2 replaced by
  \<open>REMOTE\<close>, \<open>three_way_merge\<close> reports a conflict, at line 2, and the merged text is
  the line \<open>a\<close>, then the conflict block (start marker, \<open>LOCAL\<close>, separator, \<open>REMOTE\<close>,
  end marker), then the line \<open>c\<close>.
\<close>

theorem three_way_merge_divergent_edit:
  "three_way_merge ''a\<newline>b\<newline>c\<newline>'' ''a\<newline>LOCAL\<newline>c\<newline>'' ''a\<newline>REMOTE\<newline>c\<newline>''
     = (''a\<newline>''
          @ ''<<<<<<< YOUR CHANGES\<newline>'' @ ''LOCAL\<newline>'' @ ''=======\<newline>''
          @ ''REMOTE\<newline>'' @ ''>>>>>>> DISK VERSION\<newline>''
          @ ''c\<newline>'',
        True, [''Conflict at line 2''])"
  by code_simp

subsection \<open>One-sided inserts\<close>

text \<open>
  Claim C7 fails on the code.  An insert is anchored at the index of the original line it
  precedes.  When only the disk side appends a line, the anchor is \<open>len(original_lines)\<close>,
  an index the loop \<open>while i < len(original_lines)\<close> never reaches: the appended line
  \<open>c\<close> is lost.  When only the user inserts \<open>x\<close> before the original line \<open>b\<close>, the
  loop emits the inserted line in place of \<open>b\<close>, which neither side deleted.  In both
  runs no conflict is reported.
\<close>

theorem three_way_merge_one_sided_insert_lost:
  "get_opcodes (splitlines ''a\<newline>b\<newline>'') (splitlines ''a\<newline>b\<newline>c\<newline>'')
     = [(Equal, 0, 2, 0, 2), (Insert, 2, 2, 2, 3)]
   \<and> three_way_merge ''a\<newline>b\<newline>'' ''X\<newline>b\<newline>'' ''a\<newline>b\<newline>c\<newline>''
     = (''X\<newline>b\<newline>'', False, [])
   \<and> get_opcodes (splitlines ''a\<newline>b\<newline>'') (splitlines ''a\<newline>x\<newline>b\<newline>'')
     = [(Equal, 0, 1, 0, 1), (Insert, 1, 1, 1, 2), (Equal, 1, 2, 2, 3)]
   \<and> three_way_merge ''a\<newline>b\<newline>'' ''a\<newline>x\<newline>b\<newline>'' ''A\<newline>b\<newline>''
     = (''A\<newline>x\<newline>'', False, [])"
  by code_simp

section \<open>The write path (routes/file\_routes.py)\<close>

text \<open>
  What \<open>write_file\<close> meets at \<open>file_path = project_path / filePath\<close>:
  \<^item> whether the path exists and is a regular file, and whether the resolved path lies
    inside the resolved project (the check that answers 403);
  \<^item> \<open>str(file_path.relative_to(project_path))\<close>, computed on the path as given, not
    resolved: the relative path, or the \<open>ValueError\<close> raised when the given path does not
    start with the project path (an absolute \<open>filePath\<close> that reaches the project only
    through a link); the string of \<open>Inl\<close> is \<open>str(e)\<close>;
  \<^item> what reading the file as UTF-8 text gives;
  \<^item> what writing a given text does: it succeeds, or \<open>open(file_path, 'w')\<close> raises and
    the file is as before, or the file is opened, hence emptied, and \<open>f.write\<close> raises
    (a text that UTF-8 cannot encode).
\<close>

datatype read_result = Text string | UnicodeDecodeError | ReadFails string

datatype write_result = Written | OpenRaises string | WriteRaises string

record disk_file =
  df_exists :: bool
  df_is_file :: bool
  df_inside_project :: bool
  df_relative_to :: "string + string"
  df_read :: read_result
  df_write :: "string \<Rightarrow> write_result"

text \<open>What a call has done to the stored file.\<close>

datatype file_effect = Unchanged | Emptied | Holds string

text \<open>
  The JSON object returned; \<open>wr_content = None\<close> is the JSON \<open>null\<close>,
  \<open>wr_diskContent = None\<close> an object without the key \<open>diskContent\<close>.
\<close>

record write_response =
  wr_success :: bool
  wr_path :: string
  wr_merged :: bool
  wr_hasConflicts :: bool
  wr_content :: "string option"
  wr_diskContent :: "string option"

text \<open>
  Every exception raised inside the \<open>try\<close>, other than \<open>UnicodeDecodeError\<close>, becomes
  the answer 500 with this detail.
\<close>

definition error_writing :: "string \<Rightarrow> HTTPException" where
  "error_writing msg = HTTPException 500 (''Error writing file: '' @ msg)"

text \<open>
  The two \<open>return\<close> statements: each builds its dictionary inside the \<open>try\<close>, and the
  entry \<open>path\<close> is where \<open>relative_to\<close> can raise.
\<close>

definition conflict_return :: "disk_file \<Rightarrow> string \<Rightarrow> string \<Rightarrow> HTTPException + write_response" where
  "conflict_return file merged_content disk_content =
     (case df_relative_to file of
        Inl msg \<Rightarrow> Inl (error_writing msg)
      | Inr rel \<Rightarrow>
          Inr \<lparr>wr_success = True, wr_path = rel, wr_merged = True, wr_hasConflicts = True,
               wr_content = Some merged_content, wr_diskContent = Some disk_content\<rparr>)"

definition written_return :: "disk_file \<Rightarrow> string \<Rightarrow> bool \<Rightarrow> HTTPException + write_response" where
  "written_return file merged_content was_merged =
     (case df_relative_to file of
        Inl msg \<Rightarrow> Inl (error_writing msg)
      | Inr rel \<Rightarrow>
          Inr \<lparr>wr_success = True, wr_path = rel, wr_merged = was_merged, wr_hasConflicts = False,
               wr_content = (if was_merged then Some merged_content else None),
               wr_diskContent = None\<rparr>)"

text \<open>
  \<open>write_file\<close>, for the request fields \<open>content\<close> and \<open>originalContent\<close> (\<open>None\<close> when
  the request has none).  The result is the exception raised or the response returned,
  and what the call has done to the file.  On the path without conflict the file is
  written before the response is built.
\<close>

definition write_file :: "disk_file \<Rightarrow> string \<Rightarrow> string option
     \<Rightarrow> (HTTPException + write_response) \<times> file_effect" where
  "write_file file content original_content =
     (if \<not> df_exists file then (Inl (HTTPException 404 ''File does not exist''), Unchanged)
      else if \<not> df_is_file file then (Inl (HTTPException 400 ''Path is not a file''), Unchanged)
      else if \<not> df_inside_project file
      then (Inl (HTTPException 403 ''Access denied: File outside project directory''), Unchanged)
      else
        case df_read file of
          UnicodeDecodeError \<Rightarrow> (Inl (HTTPException 400 ''File is not a text file''), Unchanged)
        | ReadFails msg \<Rightarrow> (Inl (error_writing msg), Unchanged)
        | Text disk_content \<Rightarrow>
            let (merged_content, was_merged, has_conflicts) =
                  (case original_content of
                     None \<Rightarrow> (content, False, False)
                   | Some original \<Rightarrow>
                       if disk_content \<noteq> original
                       then (case simple_merge original content disk_content of
                               (merged_content, was_merged) \<Rightarrow>
                                 (merged_content, was_merged,
                                  sublist ''<<<<<<< YOUR CHANGES'' merged_content))
                       else (content, False, False))
            in if has_conflicts
               then (conflict_return file merged_content disk_content, Unchanged)
               else
                 case df_write file merged_content of
                   OpenRaises msg \<Rightarrow> (Inl (error_writing msg), Unchanged)
                 | WriteRaises msg \<Rightarrow> (Inl (error_writing msg), Emptied)
                 | Written \<Rightarrow>
                     (written_return file merged_content was_merged, Holds merged_content))"

text \<open>
  A text file of the project, given by a relative \<open>filePath\<close>, that takes every write;
  and the same file given by an absolute path that leads into the project through a link,
  for which \<open>relative_to\<close> raises.
\<close>

definition text_file :: "string \<Rightarrow> string \<Rightarrow> disk_file" where
  "text_file rel stored =
     \<lparr>df_exists = True, df_is_file = True, df_inside_project = True, df_relative_to = Inr rel,
      df_read = Text stored, df_write = (\<lambda>text. Written)\<rparr>"

definition linked_text_file :: "string \<Rightarrow> string \<Rightarrow> disk_file" where
  "linked_text_file msg stored =
     \<lparr>df_exists = True, df_is_file = True, df_inside_project = True, df_relative_to = Inl msg,
      df_read = Text stored, df_write = (\<lambda>text. Written)\<rparr>"

subsection \<open>Writing without a baseline\<close>



subsection \<open>Conflicts are found by searching for the marker\<close>



subsection \<open>A conflict is not written\<close>



subsection \<open>What the write path does when things go wrong\<close>

text \<open>
  The appended line that the merge loses, seen from the write path: the stored file has
  gained the line \<open>c\<close> since the client loaded it, the client changes line 1, and
  \<open>write_file\<close> writes the merge without the line \<open>c\<close> and reports no conflict.
\<close>

lemma write_file_persists_lost_insert:
  "write_file (text_file ''models/m.sql'' ''a\<newline>b\<newline>c\<newline>'') ''X\<newline>b\<newline>'' (Some ''a\<newline>b\<newline>'')
     = (Inr \<lparr>wr_success = True, wr_path = ''models/m.sql'', wr_merged = True,
             wr_hasConflicts = False, wr_content = Some ''X\<newline>b\<newline>'',
             wr_diskContent = None\<rparr>, Holds ''X\<newline>b\<newline>'')"
  by code_simp

text \<open>
  A file reached through a link: without a baseline the file is overwritten and the answer
  is 500; with a conflict the answer is 500 in place of the conflict response.  A text that
  cannot be encoded leaves the file empty.
\<close>

lemma write_file_linked_path:
  "write_file (linked_text_file msg ''x=3\<newline>'') ''x=2\<newline>'' None
     = (Inl (error_writing msg), Holds ''x=2\<newline>'')"
  "write_file (linked_text_file msg ''x=3\<newline>'') ''x=2\<newline>'' (Some ''x=1\<newline>'')
     = (Inl (error_writing msg), Unchanged)"
  by (code_simp, code_simp)

lemma write_file_unencodable:
  "write_file ((text_file rel stored)\<lparr>df_write := (\<lambda>text. WriteRaises msg)\<rparr>) content None
     = (Inl (error_writing msg), Emptied)"
  by (simp add: write_file_def text_file_def)

end
